theory Spec2Isabelle
  imports Complex_Main
begin

section \<open>Values of the plugin\<close>

text \<open>
  The candidates handed to \<open>choose_best_result\<close> are what the host's JSON decoder
  produced: Python values built from \<open>None\<close>, booleans, numbers, strings, lists and
  dicts. A dict is an association list, read with \<open>map_of\<close>. Numbers are exact
  rationals: the rounding of Python floats is outside this model, and so are the
  values \<open>NaN\<close> and \<open>Infinity\<close>.
\<close>

datatype json =
    JNull
  | JBool bool
  | JNum rat
  | JStr string
  | JList "json list"
  | JObj "(string \<times> json) list"

text \<open>The exceptions the code can raise on such values.\<close>

datatype exn = AttributeError | TypeError | ValueError

text \<open>Python's truth value of an object (\<open>if x:\<close>, \<open>not x\<close>, \<open>x or y\<close>).\<close>

fun truthy :: "json \<Rightarrow> bool" where
  "truthy JNull = False"
| "truthy (JBool b) = b"
| "truthy (JNum r) = (r \<noteq> 0)"
| "truthy (JStr s) = (s \<noteq> [])"
| "truthy (JList xs) = (xs \<noteq> [])"
| "truthy (JObj kvs) = (kvs \<noteq> [])"

text \<open>\<open>x or y\<close>: the first operand when it is true, the second otherwise.\<close>

definition py_or :: "json \<Rightarrow> json \<Rightarrow> json" where
  "py_or x y = (if truthy x then x else y)"

text \<open>\<open>d.get(k)\<close> on a dict: \<open>None\<close> for a missing key.\<close>

definition dict_get :: "(string \<times> json) list \<Rightarrow> string \<Rightarrow> json" where
  "dict_get d k = (case map_of d k of None \<Rightarrow> JNull | Some v \<Rightarrow> v)"

text \<open>
  The numeric value of an operand of \<open>-\<close>: numbers, and booleans (\<open>bool\<close> is a
  subclass of \<open>int\<close>); every other operand makes the subtraction raise \<open>TypeError\<close>.
\<close>

fun number_of :: "json \<Rightarrow> rat option" where
  "number_of (JBool b) = Some (if b then 1 else 0)"
| "number_of (JNum r) = Some r"
| "number_of _ = None"

definition py_sub :: "json \<Rightarrow> int \<Rightarrow> exn + rat" where
  "py_sub x n = (case number_of x of None \<Rightarrow> Inl TypeError | Some r \<Rightarrow> Inr (r - of_int n))"

section \<open>The selector: \<open>choose_best_result\<close>\<close>

definition DURATION_TOLERANCE :: int where
  "DURATION_TOLERANCE = 2"

text \<open>
  Lines 79 to 82: \<open>duration_match\<close> starts False and becomes True when
  \<open>duration and target_duration\<close> holds and
  \<open>abs(duration - target_duration) <= DURATION_TOLERANCE\<close>.
\<close>

definition duration_match :: "json \<Rightarrow> int \<Rightarrow> exn + bool" where
  "duration_match duration target_duration =
     (if truthy duration \<and> target_duration \<noteq> 0 then
        (case py_sub duration target_duration of
           Inl e \<Rightarrow> Inl e
         | Inr d \<Rightarrow> Inr (\<bar>d\<bar> \<le> of_int DURATION_TOLERANCE))
      else Inr False)"

text \<open>The four local variables of the function, all \<open>None\<close> before the loop.\<close>

record slots =
  synced_duration_match :: json
  synced_any :: json
  plain_duration_match :: json
  plain_any :: json

definition init_slots :: slots where
  "init_slots = \<lparr>synced_duration_match = JNull, synced_any = JNull,
                  plain_duration_match = JNull, plain_any = JNull\<rparr>"

text \<open>Lines 84 to 88, the \<open>if synced:\<close> block.\<close>

definition fill_synced :: "bool \<Rightarrow> json \<Rightarrow> slots \<Rightarrow> slots" where
  "fill_synced dm synced s =
     (if truthy synced then
        (if dm \<and> \<not> truthy (synced_duration_match s) then s\<lparr>synced_duration_match := synced\<rparr>
         else if \<not> truthy (synced_any s) then s\<lparr>synced_any := synced\<rparr>
         else s)
      else s)"

text \<open>Lines 90 to 94, the \<open>if plain:\<close> block.\<close>

definition fill_plain :: "bool \<Rightarrow> json \<Rightarrow> slots \<Rightarrow> slots" where
  "fill_plain dm plain s =
     (if truthy plain then
        (if dm \<and> \<not> truthy (plain_duration_match s) then s\<lparr>plain_duration_match := plain\<rparr>
         else if \<not> truthy (plain_any s) then s\<lparr>plain_any := plain\<rparr>
         else s)
      else s)"

text \<open>
  One iteration of the \<open>for\<close> loop. \<open>result.get\<close> exists on dicts only: any other
  element raises \<open>AttributeError\<close>.
\<close>

definition loop_body :: "int \<Rightarrow> slots \<Rightarrow> json \<Rightarrow> exn + slots" where
  "loop_body target_duration s result =
     (case result of
        JObj d \<Rightarrow>
          if truthy (dict_get d ''instrumental'') then Inr s
          else
            (let duration = dict_get d ''duration'';
                 synced = dict_get d ''syncedLyrics'';
                 plain = dict_get d ''plainLyrics''
             in case duration_match duration target_duration of
                  Inl e \<Rightarrow> Inl e
                | Inr dm \<Rightarrow> Inr (fill_plain dm plain (fill_synced dm synced s)))
      | _ \<Rightarrow> Inl AttributeError)"

fun loop :: "int \<Rightarrow> slots \<Rightarrow> json list \<Rightarrow> exn + slots" where
  "loop target_duration s [] = Inr s"
| "loop target_duration s (result # results) =
     (case loop_body target_duration s result of
        Inl e \<Rightarrow> Inl e
      | Inr s' \<Rightarrow> loop target_duration s' results)"

text \<open>Lines 96 to 101: the chain of \<open>or\<close> over the four variables.\<close>

definition return_value :: "slots \<Rightarrow> json" where
  "return_value s =
     py_or (synced_duration_match s)
       (py_or (synced_any s) (py_or (plain_duration_match s) (plain_any s)))"

definition choose_best_result :: "json list \<Rightarrow> int \<Rightarrow> exn + json" where
  "choose_best_result results target_duration =
     (case loop target_duration init_slots results of
        Inl e \<Rightarrow> Inl e
      | Inr s \<Rightarrow> Inr (return_value s))"

section \<open>Parsing the track length\<close>

text \<open>\<open>s.split(":")\<close>.\<close>

fun split_colon :: "string \<Rightarrow> string list" where
  "split_colon [] = [[]]"
| "split_colon (c # cs) =
     (if c = CHR '':'' then [] # split_colon cs
      else (case split_colon cs of
              [] \<Rightarrow> [[c]]
            | w # ws \<Rightarrow> (c # w) # ws))"

text \<open>
  \<open>int(s)\<close> on a string, for ASCII input: surrounding white space is dropped, one sign
  is allowed, then come decimal digits, where a single underscore may stand between
  two digits. Anything else raises \<open>ValueError\<close>. The bound that recent
  interpreters put on the number of digits is left out.
\<close>

definition is_space :: "char \<Rightarrow> bool" where
  "is_space c = (let n = (of_char c :: nat) in (9 \<le> n \<and> n \<le> 13) \<or> n = 32)"

definition is_digit :: "char \<Rightarrow> bool" where
  "is_digit c = (let n = (of_char c :: nat) in 48 \<le> n \<and> n \<le> 57)"

definition digit_val :: "char \<Rightarrow> nat" where
  "digit_val c = of_char c - 48"

definition strip :: "string \<Rightarrow> string" where
  "strip s = rev (dropWhile is_space (rev (dropWhile is_space s)))"

fun digits_acc :: "nat \<Rightarrow> string \<Rightarrow> nat option" where
  "digits_acc acc [] = Some acc"
| "digits_acc acc (c # cs) =
     (if is_digit c then digits_acc (acc * 10 + digit_val c) cs
      else if c = CHR ''_'' then
        (case cs of
           [] \<Rightarrow> None
         | d # _ \<Rightarrow> if is_digit d then digits_acc acc cs else None)
      else None)"

definition digits :: "string \<Rightarrow> nat option" where
  "digits s = (case s of [] \<Rightarrow> None | c # _ \<Rightarrow> if is_digit c then digits_acc 0 s else None)"

definition py_int :: "string \<Rightarrow> exn + int" where
  "py_int s =
     (let body = strip s;
          (sign, ds) = (case body of
                          [] \<Rightarrow> (1, [])
                        | c # cs \<Rightarrow> if c = CHR ''-'' then (- 1, cs)
                                     else if c = CHR ''+'' then (1, cs)
                                     else (1, body))
      in case digits ds of
           None \<Rightarrow> Inl ValueError
         | Some n \<Rightarrow> Inr (sign * int n))"

text \<open>
  \<open>mins, secs = map(int, metadata.get("~length", "0:0").split(":"))\<close> followed by
  \<open>mins * 60 + secs\<close>. A value without \<open>split\<close> raises \<open>AttributeError\<close>; a piece
  that is no integer, and a number of pieces other than two, raise \<open>ValueError\<close>.
\<close>

definition parse_length :: "(string \<rightharpoonup> json) \<Rightarrow> exn + int" where
  "parse_length md =
     (case (case md ''~length'' of None \<Rightarrow> JStr ''0:0'' | Some v \<Rightarrow> v) of
        JStr s \<Rightarrow>
          (case split_colon s of
             [a, b] \<Rightarrow>
               (case py_int a of
                  Inl e \<Rightarrow> Inl e
                | Inr mins \<Rightarrow>
                    (case py_int b of
                       Inl e \<Rightarrow> Inl e
                     | Inr secs \<Rightarrow> Inr (mins * 60 + secs)))
           | _ \<Rightarrow> Inl ValueError)
      | _ \<Rightarrow> Inl AttributeError)"

section \<open>The callbacks: \<open>process_response\<close> and \<open>process_track\<close>\<close>

text \<open>
  What the callbacks change: the album's counter \<open>_requests\<close>, the calls of
  \<open>album._finalize_loading(None)\<close>, the track's metadata, the lines sent to the
  host's log and the requests handed to the host's web service.
\<close>

datatype log_entry =
    ErrApiRequestFailed
  | ErrUnexpectedResponse json
  | ErrProcessing exn
  | DbgProcessing nat
  | DbgAttached
  | DbgNoSuitable
  | DbgQuery json json

record env =
  requests :: int
  finalize_calls :: nat
  metadata :: "string \<rightharpoonup> json"
  logged :: "log_entry list"
  get_url_calls :: "(json \<times> json) list"

definition log_line :: "log_entry \<Rightarrow> env \<Rightarrow> env" where
  "log_line l w = w\<lparr>logged := logged w @ [l]\<rparr>"

text \<open>\<open>album._requests -= 1\<close> followed by \<open>album._finalize_loading(None)\<close>.\<close>

definition release :: "env \<Rightarrow> env" where
  "release w = w\<lparr>requests := requests w - 1, finalize_calls := finalize_calls w + 1\<rparr>"

text \<open>How the body of the \<open>try\<close> statement ends.\<close>

datatype outcome = Completed | Returned | Raised exn

text \<open>Lines 112 to 126, the body of the \<open>try\<close> statement.\<close>

definition try_body :: "json \<Rightarrow> env \<Rightarrow> outcome \<times> env" where
  "try_body data w =
     (case data of
        JList results \<Rightarrow>
          (case parse_length (metadata w) of
             Inl e \<Rightarrow> (Raised e, w)
           | Inr target_duration \<Rightarrow>
               (let w1 = log_line (DbgProcessing (length results)) w
                in case choose_best_result results target_duration of
                     Inl e \<Rightarrow> (Raised e, w1)
                   | Inr lyrics \<Rightarrow>
                       if truthy lyrics then
                         (Completed,
                          log_line DbgAttached
                            (w1\<lparr>metadata := (metadata w1)(''lyrics'' \<mapsto> lyrics)\<rparr>))
                       else (Completed, log_line DbgNoSuitable w1)))
      | _ \<Rightarrow> (Returned, log_line (ErrUnexpectedResponse data) w))"

text \<open>Lines 128 and 129, \<open>except Exception\<close>: the exception is logged and ends there.\<close>

definition except_clause :: "outcome \<times> env \<Rightarrow> outcome \<times> env" where
  "except_clause r =
     (case r of
        (Raised e, w) \<Rightarrow> (Completed, log_line (ErrProcessing e) w)
      | _ \<Rightarrow> r)"

text \<open>
  Lines 131 to 133, \<open>finally\<close>: it runs however the statement ends, also after the
  \<open>return\<close> of line 114.
\<close>

definition finally_clause :: "outcome \<times> env \<Rightarrow> env" where
  "finally_clause r = release (snd r)"

text \<open>\<open>error\<close> is the transport's error value, read for its truth value only.\<close>

definition process_response :: "json \<Rightarrow> bool \<Rightarrow> env \<Rightarrow> env" where
  "process_response data error w =
     (if error then release (log_line ErrApiRequestFailed w)
      else finally_clause (except_clause (try_body data w)))"

text \<open>
  \<open>process_track\<close>: the length is parsed into a local that nothing reads (\<open>None\<close>
  when the parsing fails), the query is built from the artist and the title, logged
  and handed to the web service, and the counter goes up by one.
\<close>

definition process_track :: "env \<Rightarrow> env" where
  "process_track w =
     (let duration = (case parse_length (metadata w) of Inl e \<Rightarrow> None | Inr n \<Rightarrow> Some n);
          artist = (case metadata w ''artist'' of None \<Rightarrow> JNull | Some v \<Rightarrow> v);
          title = (case metadata w ''title'' of None \<Rightarrow> JNull | Some v \<Rightarrow> v);
          w1 = log_line (DbgQuery artist title) w;
          w2 = w1\<lparr>get_url_calls := get_url_calls w1 @ [(artist, title)]\<rparr>
      in w2\<lparr>requests := requests w2 + 1\<rparr>)"

section \<open>Notions used in the statements\<close>

text \<open>What \<open>isinstance(data, list)\<close> and the \<open>get\<close> calls of the loop see of a value.\<close>

definition is_list :: "json \<Rightarrow> bool" where
  "is_list v = (case v of JList xs \<Rightarrow> True | _ \<Rightarrow> False)"

definition is_dict :: "json \<Rightarrow> bool" where
  "is_dict c = (case c of JObj d \<Rightarrow> True | _ \<Rightarrow> False)"

text \<open>The four fields the loop reads from a candidate, \<open>None\<close> where there is none.\<close>

definition is_instrumental :: "json \<Rightarrow> bool" where
  "is_instrumental c = (case c of JObj d \<Rightarrow> truthy (dict_get d ''instrumental'') | _ \<Rightarrow> False)"

definition duration_of :: "json \<Rightarrow> json" where
  "duration_of c = (case c of JObj d \<Rightarrow> dict_get d ''duration'' | _ \<Rightarrow> JNull)"

definition synced_of :: "json \<Rightarrow> json" where
  "synced_of c = (case c of JObj d \<Rightarrow> dict_get d ''syncedLyrics'' | _ \<Rightarrow> JNull)"

definition plain_of :: "json \<Rightarrow> json" where
  "plain_of c = (case c of JObj d \<Rightarrow> dict_get d ''plainLyrics'' | _ \<Rightarrow> JNull)"

text \<open>
  A candidate that reaches the \<open>if synced:\<close> block (the \<open>if plain:\<close> block) with
  \<open>duration_match\<close> True and a text to offer.
\<close>

definition has_synced_match :: "int \<Rightarrow> json \<Rightarrow> bool" where
  "has_synced_match t c =
     (is_dict c \<and> \<not> is_instrumental c \<and> truthy (synced_of c) \<and>
      duration_match (duration_of c) t = Inr True)"

definition has_plain_match :: "int \<Rightarrow> json \<Rightarrow> bool" where
  "has_plain_match t c =
     (is_dict c \<and> \<not> is_instrumental c \<and> truthy (plain_of c) \<and>
      duration_match (duration_of c) t = Inr True)"

text \<open>
  The result as the specification words it: the first slot that is not empty, in the
  order 1, 2, 3, 4, and no result when all four are empty. It is compared with
  \<open>return_value\<close>, the expression of the source.
\<close>

definition spec_first_nonempty_slot :: "slots \<Rightarrow> json" where
  "spec_first_nonempty_slot s =
     (case filter (\<lambda>v. v \<noteq> JNull)
             [synced_duration_match s, synced_any s, plain_duration_match s, plain_any s] of
        [] \<Rightarrow> JNull
      | v # _ \<Rightarrow> v)"

text \<open>
  The invariant of the loop: a slot is empty, or holds a true value that is the field
  \<open>field\<close> of a candidate of \<open>C\<close> that is a dict and not instrumental.
\<close>

definition slot_from :: "(json \<Rightarrow> json) \<Rightarrow> json set \<Rightarrow> json \<Rightarrow> bool" where
  "slot_from field C v =
     (v = JNull \<or> (truthy v \<and> (\<exists>c\<in>C. is_dict c \<and> \<not> is_instrumental c \<and> field c = v)))"

definition slots_inv :: "json set \<Rightarrow> slots \<Rightarrow> bool" where
  "slots_inv C s =
     (slot_from synced_of C (synced_duration_match s) \<and> slot_from synced_of C (synced_any s) \<and>
      slot_from plain_of C (plain_duration_match s) \<and> slot_from plain_of C (plain_any s))"



section \<open>Facts about the loop\<close>

lemmas selector_defs =
  choose_best_result_def loop_body_def dict_get_def duration_match_def py_sub_def
  DURATION_TOLERANCE_def fill_synced_def fill_plain_def init_slots_def return_value_def py_or_def

lemmas candidate_defs =
  is_dict_def is_instrumental_def synced_of_def plain_of_def duration_of_def
  has_synced_match_def has_plain_match_def

lemmas length_defs =
  parse_length_def py_int_def strip_def is_space_def digits_def is_digit_def digit_val_def

lemmas callback_defs =
  process_response_def process_track_def try_body_def except_clause_def finally_clause_def
  release_def log_line_def

subsection \<open>One iteration\<close>

lemma loop_body_cases:
  assumes "loop_body t s c = Inr s'"
  obtains (skipped) "is_dict c" "is_instrumental c" "s' = s"
  | (used) dm where "is_dict c" "\<not> is_instrumental c"
      "duration_match (duration_of c) t = Inr dm"
      "s' = fill_plain dm (plain_of c) (fill_synced dm (synced_of c) s)"
  using assms
  by (auto simp: loop_body_def is_dict_def is_instrumental_def duration_of_def synced_of_def
      plain_of_def Let_def split: json.splits if_splits sum.splits)

lemma loop_body_used:
  "is_dict c \<Longrightarrow> \<not> is_instrumental c \<Longrightarrow> duration_match (duration_of c) t = Inr dm \<Longrightarrow>
     loop_body t s c = Inr (fill_plain dm (plain_of c) (fill_synced dm (synced_of c) s))"
  by (auto simp: loop_body_def is_dict_def is_instrumental_def duration_of_def synced_of_def
      plain_of_def Let_def split: json.splits)

lemma loop_body_skipped:
  "is_dict c \<Longrightarrow> is_instrumental c \<Longrightarrow> loop_body t s c = Inr s"
  by (auto simp: loop_body_def is_dict_def is_instrumental_def split: json.splits)

lemma is_instrumental_is_dict: "is_instrumental c \<Longrightarrow> is_dict c"
  by (simp add: is_instrumental_def is_dict_def split: json.splits)

lemma fill_synced_keeps:
  "truthy (synced_duration_match s) \<Longrightarrow>
     synced_duration_match (fill_synced dm v s) = synced_duration_match s"
  "truthy (synced_any s) \<Longrightarrow> synced_any (fill_synced dm v s) = synced_any s"
  "plain_duration_match (fill_synced dm v s) = plain_duration_match s"
  "plain_any (fill_synced dm v s) = plain_any s"
  by (simp_all add: fill_synced_def)

lemma fill_plain_keeps:
  "truthy (plain_duration_match s) \<Longrightarrow>
     plain_duration_match (fill_plain dm v s) = plain_duration_match s"
  "truthy (plain_any s) \<Longrightarrow> plain_any (fill_plain dm v s) = plain_any s"
  "synced_duration_match (fill_plain dm v s) = synced_duration_match s"
  "synced_any (fill_plain dm v s) = synced_any s"
  by (simp_all add: fill_plain_def)

lemma loop_body_keeps:
  assumes "loop_body t s c = Inr s'"
  shows "truthy (synced_duration_match s) \<Longrightarrow> synced_duration_match s' = synced_duration_match s"
    and "truthy (synced_any s) \<Longrightarrow> synced_any s' = synced_any s"
    and "truthy (plain_duration_match s) \<Longrightarrow> plain_duration_match s' = plain_duration_match s"
    and "truthy (plain_any s) \<Longrightarrow> plain_any s' = plain_any s"
  using assms by (auto elim!: loop_body_cases simp: fill_synced_keeps fill_plain_keeps)

lemma loop_body_no_synced_match:
  "loop_body t s c = Inr s' \<Longrightarrow> \<not> has_synced_match t c \<Longrightarrow>
     synced_duration_match s' = synced_duration_match s"
  by (erule loop_body_cases)
     (auto simp: has_synced_match_def fill_synced_def fill_plain_keeps)


lemma loop_body_synced_match_fills:
  "loop_body t s c = Inr s' \<Longrightarrow> has_synced_match t c \<Longrightarrow> \<not> truthy (synced_duration_match s) \<Longrightarrow>
     synced_duration_match s' = synced_of c"
  by (erule loop_body_cases)
     (auto simp: has_synced_match_def fill_synced_def fill_plain_keeps)

lemma loop_body_match_after_filled:
  assumes "is_dict c" "\<not> is_instrumental c" "duration_match (duration_of c) t = Inr True"
  shows "truthy (synced_of c) \<Longrightarrow> truthy (synced_duration_match s) \<Longrightarrow>
           \<exists>s'. loop_body t s c = Inr s' \<and>
                synced_duration_match s' = synced_duration_match s \<and>
                synced_any s' = (if truthy (synced_any s) then synced_any s else synced_of c)"
    and "truthy (plain_of c) \<Longrightarrow> truthy (plain_duration_match s) \<Longrightarrow>
           \<exists>s'. loop_body t s c = Inr s' \<and>
                plain_duration_match s' = plain_duration_match s \<and>
                plain_any s' = (if truthy (plain_any s) then plain_any s else plain_of c)"
  by (simp_all add: loop_body_used[OF assms] fill_synced_def fill_plain_def)

subsection \<open>The whole pass\<close>

lemma loop_append:
  "loop t s (xs @ ys) = (case loop t s xs of Inl e \<Rightarrow> Inl e | Inr s' \<Rightarrow> loop t s' ys)"
  by (induction xs arbitrary: s) (auto split: sum.splits)

lemma loop_keeps_synced_duration_match:
  "loop t s cs = Inr s' \<Longrightarrow> truthy (synced_duration_match s) \<Longrightarrow>
     synced_duration_match s' = synced_duration_match s"
proof (induction cs arbitrary: s)
  case Nil
  then show ?case by simp
next
  case (Cons c cs)
  from Cons.prems(1) obtain s1 where b: "loop_body t s c = Inr s1" and l: "loop t s1 cs = Inr s'"
    by (auto split: sum.splits)
  from loop_body_keeps(1)[OF b Cons.prems(2)] Cons.IH[OF l] Cons.prems(2) show ?case by simp
qed

lemma loop_keeps_synced_any:
  "loop t s cs = Inr s' \<Longrightarrow> truthy (synced_any s) \<Longrightarrow> synced_any s' = synced_any s"
proof (induction cs arbitrary: s)
  case Nil
  then show ?case by simp
next
  case (Cons c cs)
  from Cons.prems(1) obtain s1 where b: "loop_body t s c = Inr s1" and l: "loop t s1 cs = Inr s'"
    by (auto split: sum.splits)
  from loop_body_keeps(2)[OF b Cons.prems(2)] Cons.IH[OF l] Cons.prems(2) show ?case by simp
qed

lemma loop_keeps_plain_duration_match:
  "loop t s cs = Inr s' \<Longrightarrow> truthy (plain_duration_match s) \<Longrightarrow>
     plain_duration_match s' = plain_duration_match s"
proof (induction cs arbitrary: s)
  case Nil
  then show ?case by simp
next
  case (Cons c cs)
  from Cons.prems(1) obtain s1 where b: "loop_body t s c = Inr s1" and l: "loop t s1 cs = Inr s'"
    by (auto split: sum.splits)
  from loop_body_keeps(3)[OF b Cons.prems(2)] Cons.IH[OF l] Cons.prems(2) show ?case by simp
qed

lemma loop_keeps_plain_any:
  "loop t s cs = Inr s' \<Longrightarrow> truthy (plain_any s) \<Longrightarrow> plain_any s' = plain_any s"
proof (induction cs arbitrary: s)
  case Nil
  then show ?case by simp
next
  case (Cons c cs)
  from Cons.prems(1) obtain s1 where b: "loop_body t s c = Inr s1" and l: "loop t s1 cs = Inr s'"
    by (auto split: sum.splits)
  from loop_body_keeps(4)[OF b Cons.prems(2)] Cons.IH[OF l] Cons.prems(2) show ?case by simp
qed



lemma loop_first_synced_match:
  "List.find (has_synced_match t) rs = Some c \<Longrightarrow> \<not> truthy (synced_duration_match s) \<Longrightarrow>
     loop t s rs = Inr s' \<Longrightarrow> synced_duration_match s' = synced_of c"
proof (induction rs arbitrary: s)
  case Nil
  then show ?case by simp
next
  case (Cons x xs)
  from Cons.prems(3) obtain s1 where b: "loop_body t s x = Inr s1" and l: "loop t s1 xs = Inr s'"
    by (auto split: sum.splits)
  show ?case
  proof (cases "has_synced_match t x")
    case True
    with Cons.prems(1) have "x = c" by simp
    with loop_body_synced_match_fills[OF b True Cons.prems(2)]
    have f: "synced_duration_match s1 = synced_of c" by simp
    from True \<open>x = c\<close> have "truthy (synced_of c)" by (simp add: has_synced_match_def)
    with f loop_keeps_synced_duration_match[OF l] show ?thesis by simp
  next
    case False
    with Cons.prems(1) have "List.find (has_synced_match t) xs = Some c" by simp
    moreover from loop_body_no_synced_match[OF b False] Cons.prems(2)
    have "\<not> truthy (synced_duration_match s1)" by simp
    ultimately show ?thesis using l by (rule Cons.IH)
  qed
qed

lemma loop_filter_instrumental:
  "loop t s (filter (\<lambda>c. \<not> is_instrumental c) rs) = loop t s rs"
proof (induction rs arbitrary: s)
  case Nil
  show ?case by simp
next
  case (Cons c rs)
  show ?case
  proof (cases "is_instrumental c")
    case True
    then have "loop_body t s c = Inr s" by (simp add: loop_body_skipped is_instrumental_is_dict)
    with True Cons.IH show ?thesis by simp
  next
    case False
    with Cons.IH show ?thesis by (simp split: sum.splits)
  qed
qed

lemma loop_all_instrumental:
  "\<forall>c\<in>set rs. is_instrumental c \<Longrightarrow> loop t s rs = Inr s"
  by (induction rs) (simp_all add: loop_body_skipped is_instrumental_is_dict)

subsection \<open>The invariant\<close>

lemma slot_from_mono: "slot_from f C v \<Longrightarrow> C \<subseteq> D \<Longrightarrow> slot_from f D v"
  by (auto simp: slot_from_def)

lemma slots_inv_mono: "slots_inv C s \<Longrightarrow> C \<subseteq> D \<Longrightarrow> slots_inv D s"
  by (auto simp: slots_inv_def intro: slot_from_mono)

lemma slots_inv_init: "slots_inv C init_slots"
  by (simp add: slots_inv_def slot_from_def init_slots_def)

lemma slots_inv_fill_synced:
  "slots_inv C s \<Longrightarrow> c \<in> C \<Longrightarrow> is_dict c \<Longrightarrow> \<not> is_instrumental c \<Longrightarrow>
     slots_inv C (fill_synced dm (synced_of c) s)"
  by (auto simp: slots_inv_def slot_from_def fill_synced_def)

lemma slots_inv_fill_plain:
  "slots_inv C s \<Longrightarrow> c \<in> C \<Longrightarrow> is_dict c \<Longrightarrow> \<not> is_instrumental c \<Longrightarrow>
     slots_inv C (fill_plain dm (plain_of c) s)"
  by (auto simp: slots_inv_def slot_from_def fill_plain_def)

lemma slots_inv_loop_body:
  assumes "loop_body t s c = Inr s'" and "slots_inv C s"
  shows "slots_inv (insert c C) s'"
  using assms(1)
proof (cases rule: loop_body_cases)
  case skipped
  with assms(2) show ?thesis by (auto intro: slots_inv_mono)
next
  case (used dm)
  have "slots_inv (insert c C) s" using assms(2) by (auto intro: slots_inv_mono)
  then show ?thesis using used by (simp add: slots_inv_fill_synced slots_inv_fill_plain)
qed

lemma slots_inv_loop:
  "loop t s cs = Inr s' \<Longrightarrow> slots_inv C s \<Longrightarrow> slots_inv (C \<union> set cs) s'"
proof (induction cs arbitrary: s C)
  case Nil
  then show ?case by simp
next
  case (Cons c cs)
  from Cons.prems(1) obtain s1 where b: "loop_body t s c = Inr s1" and l: "loop t s1 cs = Inr s'"
    by (auto split: sum.splits)
  from Cons.IH[OF l slots_inv_loop_body[OF b Cons.prems(2)]] show ?case by simp
qed

lemma return_value_first_nonempty:
  "slots_inv C s \<Longrightarrow> return_value s = spec_first_nonempty_slot s"
  by (auto simp: slots_inv_def slot_from_def return_value_def py_or_def spec_first_nonempty_slot_def)




subsection \<open>The duration test and the result\<close>




lemma find_Some_holds: "List.find P xs = Some x \<Longrightarrow> P x"
  by (induction xs) (auto split: if_splits)

lemma choose_first_synced_match:
  assumes "List.find (has_synced_match t) rs = Some c" and "choose_best_result rs t = Inr v"
  shows "v = synced_of c"
proof -
  from assms(2) obtain s' where l: "loop t init_slots rs = Inr s'" and v: "v = return_value s'"
    by (auto simp: choose_best_result_def split: sum.splits)
  have "\<not> truthy (synced_duration_match init_slots)" by (simp add: init_slots_def)
  from loop_first_synced_match[OF assms(1) this l]
  have "synced_duration_match s' = synced_of c" .
  moreover from find_Some_holds[OF assms(1)] have "truthy (synced_of c)"
    by (simp add: has_synced_match_def)
  ultimately show ?thesis using v by (simp add: return_value_def py_or_def)
qed

lemma choose_first_nonempty:
  "choose_best_result rs t =
     (case loop t init_slots rs of Inl e \<Rightarrow> Inl e | Inr s \<Rightarrow> Inr (spec_first_nonempty_slot s))"
proof (cases "loop t init_slots rs")
  case (Inl e)
  then show ?thesis by (simp add: choose_best_result_def)
next
  case (Inr s)
  from slots_inv_loop[OF Inr slots_inv_init] have "return_value s = spec_first_nonempty_slot s"
    by (rule return_value_first_nonempty)
  with Inr show ?thesis by (simp add: choose_best_result_def)
qed

lemma choose_pair_synced_first:
  assumes "has_synced_match t a" and "has_plain_match t b"
  shows "choose_best_result [a, b] t = Inr (synced_of a)"
  using assms
  by (simp add: has_synced_match_def has_plain_match_def choose_best_result_def loop_body_used
      fill_synced_def fill_plain_def init_slots_def return_value_def py_or_def)

lemma choose_pair_plain_first:
  assumes "has_synced_match t a" and "has_plain_match t b" and "\<not> truthy (synced_of b)"
  shows "choose_best_result [b, a] t = Inr (synced_of a)"
  using assms
  by (simp add: has_synced_match_def has_plain_match_def choose_best_result_def loop_body_used
      fill_synced_def fill_plain_def init_slots_def return_value_def py_or_def)

section \<open>Facts about the callbacks\<close>

lemma log_line_fields:
  "requests (log_line l w) = requests w"
  "finalize_calls (log_line l w) = finalize_calls w"
  "metadata (log_line l w) = metadata w"
  "get_url_calls (log_line l w) = get_url_calls w"
  by (simp_all add: log_line_def)

lemma release_fields:
  "requests (release w) = requests w - 1"
  "finalize_calls (release w) = finalize_calls w + 1"
  "metadata (release w) = metadata w"
  by (simp_all add: release_def)

lemma try_body_counter:
  "requests (snd (try_body data w)) = requests w \<and>
   finalize_calls (snd (try_body data w)) = finalize_calls w"
  by (cases data)
     (simp_all add: try_body_def Let_def log_line_fields split: sum.splits)

lemma except_clause_counter:
  "requests (snd (except_clause r)) = requests (snd r) \<and>
   finalize_calls (snd (except_clause r)) = finalize_calls (snd r)"
  by (cases r) (simp add: except_clause_def log_line_fields split: outcome.splits)

lemma except_clause_metadata: "metadata (snd (except_clause r)) = metadata (snd r)"
  by (cases r) (simp add: except_clause_def log_line_fields split: outcome.splits)

lemma try_body_metadata:
  "metadata (snd (try_body data w)) =
     (case data of
        JList rs \<Rightarrow>
          (case parse_length (metadata w) of
             Inl e \<Rightarrow> metadata w
           | Inr t \<Rightarrow>
               (case choose_best_result rs t of
                  Inl e \<Rightarrow> metadata w
                | Inr v \<Rightarrow> if truthy v then (metadata w)(''lyrics'' \<mapsto> v) else metadata w))
      | _ \<Rightarrow> metadata w)"
  by (cases data)
     (simp_all add: try_body_def Let_def log_line_fields split: sum.splits)

lemma process_response_metadata:
  "metadata (process_response data error w) =
     (if error then metadata w else metadata (snd (try_body data w)))"
  by (simp add: process_response_def finally_clause_def release_fields log_line_fields
      except_clause_metadata)

lemma parse_length_missing: "md ''~length'' = None \<Longrightarrow> parse_length md = Inr 0"
  by (simp add: length_defs)

lemma process_response_parse_failure:
  "parse_length (metadata w) = Inl e \<Longrightarrow>
     process_response (JList rs) False w = release (log_line (ErrProcessing e) w)"
  by (simp add: process_response_def try_body_def except_clause_def finally_clause_def)

lemma missing_length_runs_selector:
  "process_response (JList [JObj [(''plainLyrics'', JStr ''la'')]]) False
     \<lparr>requests = 1, finalize_calls = 0, metadata = Map.empty, logged = [], get_url_calls = []\<rparr>
   = \<lparr>requests = 0, finalize_calls = 1, metadata = [''lyrics'' \<mapsto> JStr ''la''],
      logged = [DbgProcessing 1, DbgAttached], get_url_calls = []\<rparr>"
  by (simp add: callback_defs length_defs selector_defs)

section \<open>The selector's slots\<close>

text \<open>
  C1, as the code has it: a candidate that is not instrumental, has synced text and
  matches the duration, met when slot 1 (\<open>synced_duration_match\<close>) is already filled,
  leaves slot 1 as it is and falls through to the \<open>elif\<close>: it fills slot 2
  (\<open>synced_any\<close>) when that slot is still empty, and is ignored only when slot 2 is
  filled too. The same holds for plain text and the slots 3 and 4.
\<close>

theorem late_match_fills_any_slot:
  "(has_synced_match t c \<and> truthy (synced_duration_match s) \<longrightarrow>
      (\<exists>s'. loop_body t s c = Inr s' \<and>
            synced_duration_match s' = synced_duration_match s \<and>
            synced_any s' = (if truthy (synced_any s) then synced_any s else synced_of c))) \<and>
   (has_plain_match t c \<and> truthy (plain_duration_match s) \<longrightarrow>
      (\<exists>s'. loop_body t s c = Inr s' \<and>
            plain_duration_match s' = plain_duration_match s \<and>
            plain_any s' = (if truthy (plain_any s) then plain_any s else plain_of c)))"
  using loop_body_match_after_filled
  by (simp add: has_synced_match_def has_plain_match_def)

text \<open>
  The theorem at target 180, on a candidate of duration 181 that arrives when the
  slots 1 and 3 hold \<open>A\<close> and \<open>P\<close>: its texts \<open>B\<close> and \<open>Q\<close> go to the slots 2 and 4.
\<close>

theorem late_match_fills_any_slot_witness:
  "has_synced_match 180
     (JObj [(''duration'', JNum 181), (''syncedLyrics'', JStr ''B''), (''plainLyrics'', JStr ''Q'')]) \<and>
   has_plain_match 180
     (JObj [(''duration'', JNum 181), (''syncedLyrics'', JStr ''B''), (''plainLyrics'', JStr ''Q'')]) \<and>
   (\<exists>s'. loop_body 180
            \<lparr>synced_duration_match = JStr ''A'', synced_any = JNull,
             plain_duration_match = JStr ''P'', plain_any = JNull\<rparr>
            (JObj [(''duration'', JNum 181), (''syncedLyrics'', JStr ''B''),
                   (''plainLyrics'', JStr ''Q'')]) = Inr s' \<and>
         synced_duration_match s' = JStr ''A'' \<and> synced_any s' = JStr ''B'') \<and>
   (\<exists>s'. loop_body 180
            \<lparr>synced_duration_match = JStr ''A'', synced_any = JNull,
             plain_duration_match = JStr ''P'', plain_any = JNull\<rparr>
            (JObj [(''duration'', JNum 181), (''syncedLyrics'', JStr ''B''),
                   (''plainLyrics'', JStr ''Q'')]) = Inr s' \<and>
         plain_duration_match s' = JStr ''P'' \<and> plain_any s' = JStr ''Q'')"
proof -
  let ?c = "JObj [(''duration'', JNum 181), (''syncedLyrics'', JStr ''B''),
                  (''plainLyrics'', JStr ''Q'')]"
  let ?s = "\<lparr>synced_duration_match = JStr ''A'', synced_any = JNull,
             plain_duration_match = JStr ''P'', plain_any = JNull\<rparr>"
  have h1: "has_synced_match 180 ?c" and h2: "has_plain_match 180 ?c"
    by (simp_all add: candidate_defs selector_defs)
  have e: "synced_of ?c = JStr ''B''" "plain_of ?c = JStr ''Q''"
    by (simp_all add: candidate_defs selector_defs)
  from late_match_fills_any_slot[of 180 ?c ?s] h1 h2 e show ?thesis by simp
qed

text \<open>
  C1 as the specification words it (the late candidate fills no slot) fails: after
  the pass over two matching candidates the second one sits in the slots 2 and 4.
\<close>

theorem late_match_dropped_counterexample:
  "loop 180 init_slots
     [JObj [(''duration'', JNum 180), (''syncedLyrics'', JStr ''A''), (''plainLyrics'', JStr ''P'')],
      JObj [(''duration'', JNum 181), (''syncedLyrics'', JStr ''B''), (''plainLyrics'', JStr ''Q'')]]
   = Inr \<lparr>synced_duration_match = JStr ''A'', synced_any = JStr ''B'',
          plain_duration_match = JStr ''P'', plain_any = JStr ''Q''\<rparr>"
  by (simp add: selector_defs)

text \<open>
  C6: within one pass a filled slot is never overwritten. For every way of cutting
  the input in two, the pass over the first part ends in some slots, and each slot
  filled at that point holds the same value when the whole pass is over: the value
  of a slot is the one given by the first candidate that filled it.
\<close>

theorem first_candidate_wins:
  "loop t s0 (xs @ ys) = Inr s' \<Longrightarrow>
     \<exists>s. loop t s0 xs = Inr s \<and>
         (truthy (synced_duration_match s) \<longrightarrow> synced_duration_match s' = synced_duration_match s) \<and>
         (truthy (synced_any s) \<longrightarrow> synced_any s' = synced_any s) \<and>
         (truthy (plain_duration_match s) \<longrightarrow> plain_duration_match s' = plain_duration_match s) \<and>
         (truthy (plain_any s) \<longrightarrow> plain_any s' = plain_any s)"
proof -
  assume a: "loop t s0 (xs @ ys) = Inr s'"
  then obtain s where x: "loop t s0 xs = Inr s" and y: "loop t s ys = Inr s'"
    by (auto simp: loop_append split: sum.splits)
  from x loop_keeps_synced_duration_match[OF y] loop_keeps_synced_any[OF y]
    loop_keeps_plain_duration_match[OF y] loop_keeps_plain_any[OF y]
  show ?thesis by blast
qed

text \<open>
  The theorem on three candidates: the third one qualifies for the slots 1 and 3, both
  filled by the first one, and for the slots 2 and 4, both filled by the second one.
\<close>

theorem first_candidate_wins_witness:
  "loop 180 init_slots
     ([JObj [(''duration'', JNum 180), (''syncedLyrics'', JStr ''A''), (''plainLyrics'', JStr ''P'')],
       JObj [(''syncedLyrics'', JStr ''B''), (''plainLyrics'', JStr ''Q'')]] @
      [JObj [(''duration'', JNum 181), (''syncedLyrics'', JStr ''C''), (''plainLyrics'', JStr ''R'')]])
   = Inr \<lparr>synced_duration_match = JStr ''A'', synced_any = JStr ''B'',
          plain_duration_match = JStr ''P'', plain_any = JStr ''Q''\<rparr> \<and>
   (\<exists>s. loop 180 init_slots
          [JObj [(''duration'', JNum 180), (''syncedLyrics'', JStr ''A''), (''plainLyrics'', JStr ''P'')],
           JObj [(''syncedLyrics'', JStr ''B''), (''plainLyrics'', JStr ''Q'')]] = Inr s \<and>
        synced_duration_match s = JStr ''A'' \<and> synced_any s = JStr ''B'' \<and>
        plain_duration_match s = JStr ''P'' \<and> plain_any s = JStr ''Q'')"
proof -
  let ?xs = "[JObj [(''duration'', JNum 180), (''syncedLyrics'', JStr ''A''), (''plainLyrics'', JStr ''P'')],
       JObj [(''syncedLyrics'', JStr ''B''), (''plainLyrics'', JStr ''Q'')]]"
  let ?ys = "[JObj [(''duration'', JNum 181), (''syncedLyrics'', JStr ''C''), (''plainLyrics'', JStr ''R'')]]"
  let ?s' = "\<lparr>synced_duration_match = JStr ''A'', synced_any = JStr ''B'',
          plain_duration_match = JStr ''P'', plain_any = JStr ''Q''\<rparr>"
  have h: "loop 180 init_slots (?xs @ ?ys) = Inr ?s'"
    by (simp add: selector_defs)
  from first_candidate_wins[OF h] show ?thesis by (simp add: selector_defs)
qed

text \<open>
  C7: an instrumental candidate leaves every slot as it is; removing the instrumental
  candidates from the list changes nothing of the result (nor of the exception
  raised); and a list of instrumental candidates only gives no result.
\<close>

theorem instrumental_never_contributes:
  "(is_instrumental c \<longrightarrow> loop_body t s c = Inr s) \<and>
   choose_best_result (filter (\<lambda>c. \<not> is_instrumental c) rs) t = choose_best_result rs t \<and>
   ((\<forall>c\<in>set rs. is_instrumental c) \<longrightarrow> choose_best_result rs t = Inr JNull)"
  by (simp add: loop_filter_instrumental loop_all_instrumental loop_body_skipped
      is_instrumental_is_dict choose_best_result_def return_value_def py_or_def init_slots_def)

text \<open>The theorem on the scenario of the specification: one instrumental candidate.\<close>

theorem instrumental_never_contributes_witness:
  "is_instrumental (JObj [(''instrumental'', JBool True), (''syncedLyrics'', JStr ''X'')]) \<and>
   loop_body 100 init_slots
     (JObj [(''instrumental'', JBool True), (''syncedLyrics'', JStr ''X'')]) = Inr init_slots \<and>
   choose_best_result [JObj [(''instrumental'', JBool True), (''syncedLyrics'', JStr ''X'')]] 100
     = Inr JNull"
proof -
  let ?c = "JObj [(''instrumental'', JBool True), (''syncedLyrics'', JStr ''X'')]"
  have h: "is_instrumental ?c" by (simp add: is_instrumental_def dict_get_def)
  from instrumental_never_contributes[of ?c 100 init_slots "[?c]"] h show ?thesis by simp
qed

section \<open>The duration test\<close>



section \<open>The result of the selector\<close>

text \<open>
  C4: the value returned is the first slot that is not empty, in the order
  \<open>synced_duration_match\<close>, \<open>synced_any\<close>, \<open>plain_duration_match\<close>, \<open>plain_any\<close>,
  and no result when all four are empty. Whenever a result is returned from a list
  that has a synced candidate matching the duration, it is the synced text of the
  first such candidate, whatever else the list holds; so of a synced matching
  candidate and a plain matching candidate without synced text, the synced one is
  returned in both orders.
\<close>

theorem priority_order:
  "choose_best_result rs t =
     (case loop t init_slots rs of Inl e \<Rightarrow> Inl e | Inr s \<Rightarrow> Inr (spec_first_nonempty_slot s)) \<and>
   (\<forall>c v. List.find (has_synced_match t) rs = Some c \<and> choose_best_result rs t = Inr v
      \<longrightarrow> v = synced_of c) \<and>
   (has_synced_match t a \<and> has_plain_match t b \<and> \<not> truthy (synced_of b)
      \<longrightarrow> choose_best_result [a, b] t = Inr (synced_of a) \<and>
          choose_best_result [b, a] t = Inr (synced_of a))"
  using choose_first_nonempty choose_first_synced_match choose_pair_synced_first
    choose_pair_plain_first by blast

text \<open>
  The theorem on the scenario of the specification in both orders: synced \<open>A\<close> of
  duration 180 and plain \<open>B\<close> of duration 181 against target 180.
\<close>

theorem priority_order_witness:
  "has_synced_match 180 (JObj [(''duration'', JNum 180), (''syncedLyrics'', JStr ''A'')]) \<and>
   has_plain_match 180 (JObj [(''duration'', JNum 181), (''plainLyrics'', JStr ''B'')]) \<and>
   \<not> truthy (synced_of (JObj [(''duration'', JNum 181), (''plainLyrics'', JStr ''B'')])) \<and>
   choose_best_result
     [JObj [(''duration'', JNum 180), (''syncedLyrics'', JStr ''A'')],
      JObj [(''duration'', JNum 181), (''plainLyrics'', JStr ''B'')]] 180 = Inr (JStr ''A'') \<and>
   choose_best_result
     [JObj [(''duration'', JNum 181), (''plainLyrics'', JStr ''B'')],
      JObj [(''duration'', JNum 180), (''syncedLyrics'', JStr ''A'')]] 180 = Inr (JStr ''A'')"
proof -
  let ?a = "JObj [(''duration'', JNum 180), (''syncedLyrics'', JStr ''A'')]"
  let ?b = "JObj [(''duration'', JNum 181), (''plainLyrics'', JStr ''B'')]"
  have h: "has_synced_match 180 ?a" "has_plain_match 180 ?b" "\<not> truthy (synced_of ?b)"
    by (simp_all add: candidate_defs selector_defs)
  have e: "synced_of ?a = JStr ''A''" by (simp add: candidate_defs selector_defs)
  note p = priority_order[of "[?b, ?a]" 180 ?a ?b]
  from p[THEN conjunct2, THEN conjunct2] h e show ?thesis by simp
qed



section \<open>The counter and the metadata\<close>

text \<open>
  C2, as the code has it: when the decoded payload is not a list, \<open>process_response\<close>
  logs the error and returns from inside the \<open>try\<close> statement, whose \<open>finally\<close>
  clause then runs: the counter goes down by one and the loading is finalized once.
  Nothing else changes.
\<close>

theorem non_list_payload_releases:
  "\<not> is_list data \<Longrightarrow>
     process_response data False w =
       w\<lparr>requests := requests w - 1, finalize_calls := finalize_calls w + 1,
         logged := logged w @ [ErrUnexpectedResponse data]\<rparr>"
  by (cases data) (simp_all add: is_list_def callback_defs)

text \<open>The theorem on a payload that is a JSON object, with one request in flight.\<close>

theorem non_list_payload_releases_witness:
  "\<not> is_list (JObj [(''message'', JStr ''oops'')]) \<and>
   process_response (JObj [(''message'', JStr ''oops'')]) False
     \<lparr>requests = 1, finalize_calls = 0, metadata = Map.empty, logged = [], get_url_calls = []\<rparr>
   = \<lparr>requests = 0, finalize_calls = 1, metadata = Map.empty,
      logged = [ErrUnexpectedResponse (JObj [(''message'', JStr ''oops'')])], get_url_calls = []\<rparr>"
proof -
  have h: "\<not> is_list (JObj [(''message'', JStr ''oops'')])" by (simp add: is_list_def)
  from non_list_payload_releases[OF h] h show ?thesis by simp
qed

text \<open>
  C2 as the specification words it (the counter is not released) fails: on a payload
  that is a string, the counter goes from 1 to 0 and the loading is finalized.
\<close>

theorem non_list_payload_counterexample:
  "requests (process_response (JStr ''oops'') False
     \<lparr>requests = 1, finalize_calls = 0, metadata = Map.empty, logged = [], get_url_calls = []\<rparr>) = 0 \<and>
   finalize_calls (process_response (JStr ''oops'') False
     \<lparr>requests = 1, finalize_calls = 0, metadata = Map.empty, logged = [], get_url_calls = []\<rparr>) = 1"
  by (simp add: callback_defs)

text \<open>
  C3, where the code departs from the specification: the length \<open>?:??\<close> (and likewise
  \<open>1:02:03\<close>) makes the parsing in \<open>process_response\<close> raise \<open>ValueError\<close>. The
  selector, which would return \<open>la\<close> for target 0, is not run: the exception is
  logged, the counter is released and the metadata get no lyrics.
\<close>

theorem malformed_length_skips_selector:
  "parse_length [''~length'' \<mapsto> JStr ''?:??''] = Inl ValueError \<and>
   parse_length [''~length'' \<mapsto> JStr ''1:02:03''] = Inl ValueError \<and>
   choose_best_result [JObj [(''plainLyrics'', JStr ''la'')]] 0 = Inr (JStr ''la'') \<and>
   process_response (JList [JObj [(''plainLyrics'', JStr ''la'')]]) False
     \<lparr>requests = 1, finalize_calls = 0, metadata = [''~length'' \<mapsto> JStr ''?:??''],
      logged = [], get_url_calls = []\<rparr>
   = \<lparr>requests = 0, finalize_calls = 1, metadata = [''~length'' \<mapsto> JStr ''?:??''],
      logged = [ErrProcessing ValueError], get_url_calls = []\<rparr>"
  by (simp add: callback_defs length_defs selector_defs)

text \<open>
  C8: \<open>process_track\<close> hands one request to the web service and adds one to the
  counter, without finalizing anything; \<open>process_response\<close> takes one from the counter
  and finalizes the loading once, whatever the payload, the error value and the state.
\<close>

theorem counter_balance:
  "requests (process_track w) = requests w + 1 \<and>
   length (get_url_calls (process_track w)) = length (get_url_calls w) + 1 \<and>
   finalize_calls (process_track w) = finalize_calls w \<and>
   requests (process_response data error w) = requests w - 1 \<and>
   finalize_calls (process_response data error w) = finalize_calls w + 1"
  by (simp add: process_track_def process_response_def finally_clause_def Let_def
      release_fields log_line_fields except_clause_counter try_body_counter)

text \<open>The theorem on one track: dispatch, then a response with lyrics.\<close>

theorem counter_balance_witness:
  "requests (process_response (JList [JObj [(''plainLyrics'', JStr ''la'')]]) False
     (process_track
        \<lparr>requests = 0, finalize_calls = 0, metadata = [''~length'' \<mapsto> JStr ''3:45''],
         logged = [], get_url_calls = []\<rparr>)) = 0 \<and>
   finalize_calls (process_response (JList [JObj [(''plainLyrics'', JStr ''la'')]]) False
     (process_track
        \<lparr>requests = 0, finalize_calls = 0, metadata = [''~length'' \<mapsto> JStr ''3:45''],
         logged = [], get_url_calls = []\<rparr>)) = 1"
proof -
  let ?w = "\<lparr>requests = 0, finalize_calls = 0, metadata = [''~length'' \<mapsto> JStr ''3:45''],
         logged = [], get_url_calls = []\<rparr>"
  from counter_balance[of ?w]
    counter_balance[of "process_track ?w" "JList [JObj [(''plainLyrics'', JStr ''la'')]]" False]
  show ?thesis by simp
qed

text \<open>
  C9: \<open>process_response\<close> changes no key of the metadata other than \<open>lyrics\<close>. When
  the selector returns a true value, that value is stored under \<open>lyrics\<close> as it is;
  the metadata change in that case only; and on a transport error, on a payload that
  is not a list and when the selector returns no result they are left as they were.
\<close>

theorem metadata_frame:
  "(\<forall>k. k \<noteq> ''lyrics'' \<longrightarrow> metadata (process_response data error w) k = metadata w k) \<and>
   (\<forall>rs t v. \<not> error \<and> data = JList rs \<and> parse_length (metadata w) = Inr t \<and>
        choose_best_result rs t = Inr v \<and> truthy v
      \<longrightarrow> metadata (process_response data error w) = (metadata w)(''lyrics'' \<mapsto> v)) \<and>
   (metadata (process_response data error w) \<noteq> metadata w
      \<longrightarrow> (\<exists>rs t v. \<not> error \<and> data = JList rs \<and> parse_length (metadata w) = Inr t \<and>
             choose_best_result rs t = Inr v \<and> truthy v)) \<and>
   (error \<or> \<not> is_list data \<or>
    (\<exists>rs t. data = JList rs \<and> parse_length (metadata w) = Inr t \<and>
       choose_best_result rs t = Inr JNull)
      \<longrightarrow> metadata (process_response data error w) = metadata w)"
  by (cases data)
     (auto simp: process_response_metadata try_body_metadata is_list_def split: sum.splits)

text \<open>
  The theorem on a response with the plain text \<open>la\<close>, on a transport error and on an
  empty list of candidates.
\<close>

theorem metadata_frame_witness:
  "metadata (process_response (JList [JObj [(''plainLyrics'', JStr ''la'')]]) False
     \<lparr>requests = 1, finalize_calls = 0, metadata = [''~length'' \<mapsto> JStr ''3:45''],
      logged = [], get_url_calls = []\<rparr>)
     = [''~length'' \<mapsto> JStr ''3:45'', ''lyrics'' \<mapsto> JStr ''la''] \<and>
   metadata (process_response (JList [JObj [(''plainLyrics'', JStr ''la'')]]) True
     \<lparr>requests = 1, finalize_calls = 0, metadata = [''~length'' \<mapsto> JStr ''3:45''],
      logged = [], get_url_calls = []\<rparr>)
     = [''~length'' \<mapsto> JStr ''3:45''] \<and>
   metadata (process_response (JList []) False
     \<lparr>requests = 1, finalize_calls = 0, metadata = [''~length'' \<mapsto> JStr ''3:45''],
      logged = [], get_url_calls = []\<rparr>)
     = [''~length'' \<mapsto> JStr ''3:45'']"
proof -
  let ?w = "\<lparr>requests = 1, finalize_calls = 0, metadata = [''~length'' \<mapsto> JStr ''3:45''],
      logged = [], get_url_calls = []\<rparr>"
  let ?rs = "[JObj [(''plainLyrics'', JStr ''la'')]]"
  have p: "parse_length (metadata ?w) = Inr 225" by (simp add: length_defs)
  have c: "choose_best_result ?rs 225 = Inr (JStr ''la'')" by (simp add: selector_defs)
  have e: "choose_best_result [] 225 = Inr JNull" by (simp add: selector_defs)
  from metadata_frame[of "JList ?rs" False ?w] p c
  have 1: "metadata (process_response (JList ?rs) False ?w) = (metadata ?w)(''lyrics'' \<mapsto> JStr ''la'')"
    by simp
  from metadata_frame[of "JList ?rs" True ?w]
  have 2: "metadata (process_response (JList ?rs) True ?w) = metadata ?w" by simp
  from metadata_frame[of "JList []" False ?w] p e
  have 3: "metadata (process_response (JList []) False ?w) = metadata ?w" by simp
  from 1 2 3 show ?thesis by simp
qed

end
